theory Spec2Isabelle
  imports Complex_Main "HOL-Library.List_Lexorder" "HOL-Library.Char_ord"
begin

section \<open>Tiered pricing (Cart.tsx, Checkout.tsx, the cart context)\<close>

text \<open>
  A cart item as \<^verbatim>\<open>getUnitPrice\<close> reads it: the base price, the quantity and the optional
  list of pricing tiers, in stored order. Prices are exact rationals, quantities integers;
  the fields of \<^verbatim>\<open>CartItem\<close> that the function never reads are left out.
\<close>

record tier =
  min_quantity :: int
  tier_price :: rat

record cart_item =
  price :: rat
  quantity :: int
  pricing_tiers :: "tier list option"

text \<open>
  \<^verbatim>\<open>getUnitPrice\<close> (the same body in Cart.tsx, Checkout.tsx and the cart context):
  \<^verbatim>\<open>Array.prototype.find\<close> is \<^const>\<open>List.find\<close>, the first element in list order
  for which the predicate holds.
\<close>

definition getUnitPrice :: "cart_item \<Rightarrow> rat" where
  "getUnitPrice item =
     (case pricing_tiers item of
        None \<Rightarrow> price item
      | Some tiers \<Rightarrow>
          if length tiers = 0 then price item
          else (case List.find (\<lambda>t. quantity item \<ge> min_quantity t) tiers of
                  Some t \<Rightarrow> tier_price t
                | None \<Rightarrow> price item))"

text \<open>
  What the specification asks for: the tiers that qualify at a quantity, and the largest
  threshold among them.
\<close>

definition qualifying :: "int \<Rightarrow> tier list \<Rightarrow> tier list" where
  "qualifying q tiers = filter (\<lambda>t. min_quantity t \<le> q) tiers"

definition is_best_tier :: "int \<Rightarrow> tier list \<Rightarrow> tier \<Rightarrow> bool" where
  "is_best_tier q tiers t \<longleftrightarrow>
     t \<in> set (qualifying q tiers) \<and>
     list_all (\<lambda>u. min_quantity u \<le> min_quantity t) (qualifying q tiers)"

section \<open>Price parsing (ProductDetail.tsx, TrackOrder.tsx)\<close>

text \<open>
  A raw price as the catalogue delivers it: \<^verbatim>\<open>number | string | undefined\<close>, or null.
\<close>

datatype raw_price = PUndefined | PNull | PNum rat | PStr string

definition is_digit :: "char \<Rightarrow> bool" where
  "is_digit c \<longleftrightarrow> c \<in> set ''0123456789''"

definition digit_val :: "char \<Rightarrow> nat" where
  "digit_val c = of_char c - of_char CHR ''0''"

definition digits_val :: "string \<Rightarrow> nat" where
  "digits_val ds = foldl (\<lambda>acc c. 10 * acc + digit_val c) 0 ds"

text \<open>
  \<^verbatim>\<open>String.prototype.replace\<close> with a string pattern: only the first occurrence is replaced.
\<close>

fun replace_first :: "string \<Rightarrow> string \<Rightarrow> string \<Rightarrow> string" where
  "replace_first pat rep [] = (if pat = [] then rep else [])"
| "replace_first pat rep (c # cs) =
     (if take (length pat) (c # cs) = pat then rep @ drop (length pat) (c # cs)
      else c # replace_first pat rep cs)"

text \<open>
  \<^verbatim>\<open>.replace(/[^\d.]/g, '')\<close>: every character that is neither an ASCII digit nor a dot is
  removed.
\<close>

definition strip_non_numeric :: "string \<Rightarrow> string" where
  "strip_non_numeric s = filter (\<lambda>c. is_digit c \<or> c = CHR ''.'') s"

text \<open>
  \<^verbatim>\<open>parseFloat\<close>, on the strings its callers pass here: after the strip only digits and dots
  remain, so no sign, exponent, blank or \<^verbatim>\<open>Infinity\<close> can occur. It reads the longest prefix
  of the shape digits, digits-dot-digits or dot-digits; \<^const>\<open>None\<close> is \<^verbatim>\<open>NaN\<close> (no such
  prefix). The value is the exact decimal magnitude: JavaScript rounds it to the nearest
  binary double, and to \<^verbatim>\<open>Infinity\<close> beyond their range, which is not modelled; the results
  below are stated at inputs whose value is a double exactly.
\<close>

definition parseFloat :: "string \<Rightarrow> rat option" where
  "parseFloat s =
     (let ip = takeWhile is_digit s;
          rest = dropWhile is_digit s;
          fp = (case rest of c # r \<Rightarrow> if c = CHR ''.'' then takeWhile is_digit r else [] | [] \<Rightarrow> [])
      in if ip = [] \<and> fp = [] then None
         else Some (of_nat (digits_val ip) + of_nat (digits_val fp) / 10 ^ length fp))"

text \<open>\<^verbatim>\<open>x || 0\<close> on a number: \<^verbatim>\<open>NaN\<close> and zero are falsy.\<close>

definition or_zero :: "rat option \<Rightarrow> rat" where
  "or_zero x = (case x of None \<Rightarrow> 0 | Some v \<Rightarrow> if v = 0 then 0 else v)"

text \<open>\<^verbatim>\<open>parsePriceToNumber\<close> of ProductDetail.tsx, which feeds the cart.\<close>

definition parsePriceToNumber :: "raw_price \<Rightarrow> rat" where
  "parsePriceToNumber rawPrice =
     (case rawPrice of
        PUndefined \<Rightarrow> 0
      | PNull \<Rightarrow> 0
      | PNum n \<Rightarrow> n
      | PStr s \<Rightarrow> or_zero (parseFloat (strip_non_numeric (replace_first ''KES '' '''' s))))"

text \<open>
  The inline expression of TrackOrder.tsx (line 116) that enriches an order item with its
  product price: \<^verbatim>\<open>typeof p === 'string' ? parseFloat(p.replace(/[^\d.]/g, '')) : (p as number) || 0\<close>.
  The conditional binds weaker than \<^verbatim>\<open>||\<close>, so the fallback to zero covers only the
  non-string branch; the result is a number or \<^verbatim>\<open>NaN\<close> (\<^const>\<open>None\<close>).
\<close>

definition enrichPrice :: "raw_price \<Rightarrow> rat option" where
  "enrichPrice p =
     (case p of
        PStr s \<Rightarrow> parseFloat (strip_non_numeric s)
      | PNum n \<Rightarrow> Some (or_zero (Some n))
      | PUndefined \<Rightarrow> Some 0
      | PNull \<Rightarrow> Some 0)"

text \<open>
  The same expression for the variant's price (line 121), whose fallback is the price found
  so far: \<^verbatim>\<open>typeof v === 'string' ? parseFloat(v.replace(/[^\d.]/g, '')) : (v as number) || itemPrice\<close>.
\<close>

definition enrichVariantPrice :: "raw_price \<Rightarrow> rat option \<Rightarrow> rat option" where
  "enrichVariantPrice v itemPrice =
     (case v of
        PStr s \<Rightarrow> parseFloat (strip_non_numeric s)
      | PNum n \<Rightarrow> if n \<noteq> 0 then Some n else itemPrice
      | PUndefined \<Rightarrow> itemPrice
      | PNull \<Rightarrow> itemPrice)"

section \<open>Decoded JSON values and the JavaScript operators applied to them\<close>

text \<open>
  The value \<^verbatim>\<open>JSON.parse\<close> returns, together with \<^verbatim>\<open>undefined\<close>, which member access
  yields for a missing property. An object is the list of its own properties. Numbers are
  only tested for truthiness and compared with 1 here.
\<close>

datatype jsval =
    JUndefined
  | JNull
  | JBool bool
  | JNum rat
  | JStr string
  | JArr "jsval list"
  | JObj "(string \<times> jsval) list"

datatype error =
    TypeError
  | SyntaxError
  | NoOrderId
  | PleaseSignIn
  | UserNotAuthenticated
  | FetchError
  | OrderNotFound
  | AccessDenied

fun truthy :: "jsval \<Rightarrow> bool" where
  "truthy JUndefined = False"
| "truthy JNull = False"
| "truthy (JBool b) = b"
| "truthy (JNum n) = (n \<noteq> 0)"
| "truthy (JStr s) = (s \<noteq> [])"
| "truthy (JArr xs) = True"
| "truthy (JObj kvs) = True"

text \<open>\<^verbatim>\<open>a || b\<close> on values.\<close>

definition js_or :: "jsval \<Rightarrow> jsval \<Rightarrow> jsval" where
  "js_or a b = (if truthy a then a else b)"

text \<open>
  Member access \<^verbatim>\<open>v.k\<close> and \<^verbatim>\<open>v[0]\<close>, for the keys the tracking page reads: \<^verbatim>\<open>name\<close>,
  \<^verbatim>\<open>stage\<close>, \<^verbatim>\<open>address\<close>, \<^verbatim>\<open>instructions\<close>, \<^verbatim>\<open>timestamp\<close>, \<^verbatim>\<open>completed\<close>, \<^verbatim>\<open>size\<close>,
  \<^verbatim>\<open>length\<close> and \<^verbatim>\<open>0\<close>. On \<^verbatim>\<open>null\<close> and \<^verbatim>\<open>undefined\<close> it throws a TypeError; arrays and strings own
  \<^verbatim>\<open>length\<close> and their indices; no prototype supplies any of the other keys.
\<close>

fun get :: "jsval \<Rightarrow> string \<Rightarrow> error + jsval" where
  "get JUndefined k = Inl TypeError"
| "get JNull k = Inl TypeError"
| "get (JObj kvs) k = Inr (case map_of kvs k of None \<Rightarrow> JUndefined | Some v \<Rightarrow> v)"
| "get (JArr xs) k =
     Inr (if k = ''length'' then JNum (of_nat (length xs))
          else if k = ''0'' then (case xs of [] \<Rightarrow> JUndefined | x # _ \<Rightarrow> x)
          else JUndefined)"
| "get (JStr s) k =
     Inr (if k = ''length'' then JNum (of_nat (length s))
          else if k = ''0'' then (case s of [] \<Rightarrow> JUndefined | c # _ \<Rightarrow> JStr [c])
          else JUndefined)"
| "get (JBool b) k = Inr JUndefined"
| "get (JNum n) k = Inr JUndefined"

text \<open>Sequencing of steps that may throw: the first exception ends the block.\<close>

definition bindE :: "error + 'a \<Rightarrow> ('a \<Rightarrow> error + 'b) \<Rightarrow> error + 'b" where
  "bindE m f = (case m of Inl e \<Rightarrow> Inl e | Inr x \<Rightarrow> f x)"

fun mapE :: "('a \<Rightarrow> error + 'b) \<Rightarrow> 'a list \<Rightarrow> error + 'b list" where
  "mapE f [] = Inr []"
| "mapE f (x # xs) = bindE (f x) (\<lambda>y. bindE (mapE f xs) (\<lambda>ys. Inr (y # ys)))"

text \<open>
  \<^verbatim>\<open>v.map(f)\<close>: only an array has the method; a decoded value of any other kind has no
  callable \<^verbatim>\<open>map\<close>, and the call throws.
\<close>

definition js_map :: "(jsval \<Rightarrow> error + 'b) \<Rightarrow> jsval \<Rightarrow> error + 'b list" where
  "js_map f v = (case v of JArr xs \<Rightarrow> mapE f xs | _ \<Rightarrow> Inl TypeError)"

section \<open>Stage parsing (the stages part of \<^verbatim>\<open>queryFn\<close>, TrackOrder.tsx)\<close>

record stage =
  name :: jsval
  timestamp :: jsval
  completed :: bool

text \<open>
  The persisted \<^verbatim>\<open>stages\<close> field, by what \<^verbatim>\<open>JSON.parse(data.stages || '[]')\<close> does with it:
  a falsy field (undefined, null, the empty string) makes the page decode \<^verbatim>\<open>'[]'\<close>; a text
  that is not JSON makes \<^verbatim>\<open>JSON.parse\<close> throw; any other text is represented by the value
  it decodes to. The JSON codec itself belongs to the runtime, not to this repository.
\<close>

datatype raw_stages = Absent | Malformed | Encoded jsval

definition JSON_parse_or_empty :: "raw_stages \<Rightarrow> error + jsval" where
  "JSON_parse_or_empty raw =
     (case raw of
        Absent \<Rightarrow> Inr (JArr [])
      | Malformed \<Rightarrow> Inl SyntaxError
      | Encoded v \<Rightarrow> Inr v)"

text \<open>The literal default workflow, as the array of objects the page writes down twice.\<close>

definition defaultStagesJs :: "string \<Rightarrow> jsval list" where
  "defaultStagesJs created =
     [JObj [(''name'', JStr ''Order Placed''), (''completed'', JBool True), (''timestamp'', JStr created)],
      JObj [(''name'', JStr ''Payment Pending''), (''completed'', JBool False), (''timestamp'', JStr '''')],
      JObj [(''name'', JStr ''Processing''), (''completed'', JBool False), (''timestamp'', JStr '''')],
      JObj [(''name'', JStr ''Shipped''), (''completed'', JBool False), (''timestamp'', JStr '''')],
      JObj [(''name'', JStr ''Delivered''), (''completed'', JBool False), (''timestamp'', JStr '''')],
      JObj [(''name'', JStr ''Confirmed Received''), (''completed'', JBool False), (''timestamp'', JStr '''')]]"

text \<open>The same six stages as the \<^verbatim>\<open>catch\<close> block assigns them, without normalisation.\<close>

definition defaultStages :: "string \<Rightarrow> stage list" where
  "defaultStages created =
     [\<lparr>name = JStr ''Order Placed'', timestamp = JStr created, completed = True\<rparr>,
      \<lparr>name = JStr ''Payment Pending'', timestamp = JStr '''', completed = False\<rparr>,
      \<lparr>name = JStr ''Processing'', timestamp = JStr '''', completed = False\<rparr>,
      \<lparr>name = JStr ''Shipped'', timestamp = JStr '''', completed = False\<rparr>,
      \<lparr>name = JStr ''Delivered'', timestamp = JStr '''', completed = False\<rparr>,
      \<lparr>name = JStr ''Confirmed Received'', timestamp = JStr '''', completed = False\<rparr>]"

text \<open>\<^verbatim>\<open>parsedStages.length === 1 && parsedStages[0].stage === 'delivery'\<close>\<close>

definition isSingleDelivery :: "jsval \<Rightarrow> error + bool" where
  "isSingleDelivery parsed =
     bindE (get parsed ''length'') (\<lambda>n.
       if n \<noteq> JNum 1 then Inr False
       else bindE (get parsed ''0'') (\<lambda>first.
              bindE (get first ''stage'') (\<lambda>st. Inr (st = JStr ''delivery''))))"

text \<open>
  \<^verbatim>\<open>parsedStages.find(s => s.address)\<close>: the first element whose \<^verbatim>\<open>address\<close> is truthy,
  \<^verbatim>\<open>undefined\<close> when there is none; a value that is not an array has no such method.
\<close>

fun findAddress :: "jsval list \<Rightarrow> error + jsval" where
  "findAddress [] = Inr JUndefined"
| "findAddress (s # ss) =
     bindE (get s ''address'') (\<lambda>a. if truthy a then Inr s else findAddress ss)"

definition js_findAddress :: "jsval \<Rightarrow> error + jsval" where
  "js_findAddress v = (case v of JArr xs \<Rightarrow> findAddress xs | _ \<Rightarrow> Inl TypeError)"

text \<open>
  The two branches of the \<^verbatim>\<open>try\<close> block up to the normalising \<^verbatim>\<open>map\<close>: the value to be
  normalised, \<^verbatim>\<open>deliveryAddress\<close> and \<^verbatim>\<open>instructions\<close>. An exception in this part is thrown
  before either variable is assigned, so both still hold the empty string.
\<close>

definition extractDelivery :: "jsval \<Rightarrow> string \<Rightarrow> error + (jsval \<times> jsval \<times> jsval)" where
  "extractDelivery parsed created =
     bindE (isSingleDelivery parsed) (\<lambda>single.
       if single then
         bindE (get parsed ''0'') (\<lambda>first.
           bindE (get first ''address'') (\<lambda>a.
             bindE (get first ''instructions'') (\<lambda>i.
               Inr (JArr (defaultStagesJs created), js_or a (JStr ''''), js_or i (JStr '''')))))
       else
         bindE (js_findAddress parsed) (\<lambda>deliveryStage.
           if truthy deliveryStage then
             bindE (get deliveryStage ''address'') (\<lambda>a.
               bindE (get deliveryStage ''instructions'') (\<lambda>i.
                 Inr (parsed, js_or a (JStr ''''), js_or i (JStr ''''))))
           else Inr (parsed, JStr '''', JStr '''')))"

text \<open>
  The callback of the normalising \<^verbatim>\<open>map\<close>:
  \<^verbatim>\<open>{ name: s.name || s.stage || 'Unknown', timestamp: s.timestamp || '', completed: !!s.completed }\<close>
\<close>

definition normalizeStage :: "jsval \<Rightarrow> error + stage" where
  "normalizeStage s =
     bindE (get s ''name'') (\<lambda>n.
       bindE (if truthy n then Inr n
              else bindE (get s ''stage'') (\<lambda>st. Inr (js_or st (JStr ''Unknown'')))) (\<lambda>nm.
         bindE (get s ''timestamp'') (\<lambda>ts.
           bindE (get s ''completed'') (\<lambda>c.
             Inr \<lparr>name = nm, timestamp = js_or ts (JStr ''''), completed = truthy c\<rparr>))))"

text \<open>
  The whole \<^verbatim>\<open>try\<close>/\<^verbatim>\<open>catch\<close>: stages, delivery address and instructions. The \<^verbatim>\<open>catch\<close>
  block replaces the stages by the default workflow and leaves the two delivery variables
  as they were when the exception was thrown.
\<close>

definition parseStages :: "raw_stages \<Rightarrow> string \<Rightarrow> stage list \<times> jsval \<times> jsval" where
  "parseStages raw created =
     (case bindE (JSON_parse_or_empty raw) (\<lambda>parsed. extractDelivery parsed created) of
        Inl e \<Rightarrow> (defaultStages created, JStr '''', JStr '''')
      | Inr (toMap, deliveryAddress, instructions) \<Rightarrow>
          (case js_map normalizeStage toMap of
             Inl e \<Rightarrow> (defaultStages created, deliveryAddress, instructions)
           | Inr parsedStages \<Rightarrow> (parsedStages, deliveryAddress, instructions)))"

section \<open>The orders table and the order query (TrackOrder.tsx, Checkout.tsx)\<close>

text \<open>
  A row of the \<^verbatim>\<open>orders\<close> table, keyed by its id, with the columns the tracking page reads
  or writes. The status is whatever value the page sends: a stage's name. The items column
  is classified like the stages column, by what \<^verbatim>\<open>JSON.parse(data.items || '[]')\<close> does
  with it.
\<close>

record order_row =
  row_user_id :: string
  row_status :: jsval
  row_items :: raw_stages
  row_stages :: raw_stages
  row_created_at :: string

type_synonym orders_table = "string \<Rightarrow> order_row option"

text \<open>The \<^verbatim>\<open>Order\<close> the page keeps in its state: the row with the parsed stages.\<close>

record order =
  order_id :: string
  user_id :: string
  status :: jsval
  stages :: "stage list"
  created_at :: string
  delivery_address :: jsval
  instructions :: jsval

text \<open>
  \<^verbatim>\<open>.select('*').eq('id', orderId).single()\<close>: the row and the error flag of the response;
  \<^verbatim>\<open>single()\<close> reports an error when no row matches.
\<close>

definition select_single :: "orders_table \<Rightarrow> string \<Rightarrow> order_row option \<times> bool" where
  "select_single tbl oid = (case tbl oid of None \<Rightarrow> (None, True) | Some r \<Rightarrow> (Some r, False))"

text \<open>
  The items part of \<^verbatim>\<open>queryFn\<close> (lines 97 to 129), as far as it decides whether the query
  returns. The column is decoded inside its own \<^verbatim>\<open>try\<close>, with the empty array as fallback:
  \<^verbatim>\<open>try { parsedItems = JSON.parse(data.items || '[]') } catch { parsedItems = [] }\<close>.
\<close>

definition parseItems :: "raw_stages \<Rightarrow> jsval" where
  "parseItems raw = (case JSON_parse_or_empty raw of Inl e \<Rightarrow> JArr [] | Inr v \<Rightarrow> v)"

text \<open>
  \<^verbatim>\<open>parsedItems.map(async item => { let variantSize = item.size || ''; try { ... } catch { ... }
  return { ...item, name, price, size } })\<close> under \<^verbatim>\<open>Promise.all\<close>. The catalogue lookups and the
  price expressions (\<open>enrichPrice\<close>, \<open>enrichVariantPrice\<close>) sit inside the callback's own
  \<^verbatim>\<open>try\<close> and cannot make the query fail; \<^verbatim>\<open>map\<close> on a value that is not an array and
  \<^verbatim>\<open>item.size\<close> on a null entry throw, and the query rejects. The enriched items are not
  among the fields of \<open>order\<close> kept here, so only the entries themselves are returned.
\<close>

definition enrichItems :: "jsval \<Rightarrow> error + jsval list" where
  "enrichItems parsedItems =
     js_map (\<lambda>item. bindE (get item ''size'') (\<lambda>variantSize. Inr item)) parsedItems"

text \<open>
  \<^verbatim>\<open>queryFn\<close>: the checks on the route parameter, the session and the user, the fetch, the
  ownership check, the items part and the stage parsing.
\<close>

definition queryFn :: "orders_table \<Rightarrow> string option \<Rightarrow> bool \<Rightarrow> string option \<Rightarrow> error + order" where
  "queryFn tbl orderId session user =
     (case orderId of
        None \<Rightarrow> Inl NoOrderId
      | Some oid \<Rightarrow>
          if oid = [] then Inl NoOrderId
          else if \<not> session then Inl PleaseSignIn
          else (case user of
                  None \<Rightarrow> Inl UserNotAuthenticated
                | Some uid \<Rightarrow>
                    (case select_single tbl oid of
                       (data, fetchError) \<Rightarrow>
                         if fetchError then Inl FetchError
                         else (case data of
                                 None \<Rightarrow> Inl OrderNotFound
                               | Some row \<Rightarrow>
                                   if row_user_id row \<noteq> uid then Inl AccessDenied
                                   else (case enrichItems (parseItems (row_items row)) of
                                           Inl e \<Rightarrow> Inl e
                                         | Inr enrichedItems \<Rightarrow>
                                             (case parseStages (row_stages row) (row_created_at row) of
                                                (parsedStages, deliveryAddress, instr) \<Rightarrow>
                                                  Inr \<lparr>order_id = oid,
                                                       user_id = row_user_id row,
                                                       status = row_status row,
                                                       stages = parsedStages,
                                                       created_at = row_created_at row,
                                                       delivery_address = deliveryAddress,
                                                       instructions = instr\<rparr>))))))"

text \<open>
  \<^verbatim>\<open>JSON.stringify(updatedStages)\<close>: the text is represented by the array of objects it
  decodes to, each with the three properties of a \<^verbatim>\<open>Stage\<close>.
\<close>

definition stageToJs :: "stage \<Rightarrow> jsval" where
  "stageToJs s = JObj [(''name'', name s), (''timestamp'', timestamp s), (''completed'', JBool (completed s))]"

definition JSON_stringify_stages :: "stage list \<Rightarrow> raw_stages" where
  "JSON_stringify_stages ss = Encoded (JArr (map stageToJs ss))"

text \<open>
  \<^verbatim>\<open>.update({status, stages}).eq('id', orderId).eq('user_id', user.id)\<close>: the row is changed
  only where both filters match; a request that matches no row changes nothing and is no error.
\<close>

definition update_order :: "orders_table \<Rightarrow> string \<Rightarrow> string \<Rightarrow> jsval \<Rightarrow> raw_stages \<Rightarrow> orders_table" where
  "update_order tbl oid uid st stg =
     (case tbl oid of
        None \<Rightarrow> tbl
      | Some row \<Rightarrow>
          if row_user_id row = uid then tbl(oid \<mapsto> row\<lparr>row_status := st, row_stages := stg\<rparr>)
          else tbl)"

section \<open>Placing an order (\<^verbatim>\<open>handlePlaceOrder\<close>, Checkout.tsx)\<close>

record delivery_info =
  deliveryInfo_address :: string
  deliveryInfo_instructions :: string

text \<open>The one-element \<^verbatim>\<open>deliveryStages\<close> array that is stringified into the \<^verbatim>\<open>stages\<close> column.\<close>

definition deliveryStages :: "delivery_info \<Rightarrow> jsval" where
  "deliveryStages di =
     JArr [JObj [(''stage'', JStr ''delivery''),
                 (''address'', JStr (deliveryInfo_address di)),
                 (''instructions'', JStr (deliveryInfo_instructions di)),
                 (''status'', JStr ''pending'')]]"

text \<open>
  \<^verbatim>\<open>handlePlaceOrder\<close>: without a session the buyer is prompted to sign up and the function
  returns unless that succeeds (\<open>signedUp\<close>); the row is inserted only for a user and a
  non-empty address. The storage supplies the new row's id and creation time and may refuse
  the insert (\<open>insertOk\<close>). The stages are inserted as text, \<^verbatim>\<open>JSON.stringify(deliveryStages)\<close>.
  The items are inserted as the array \<^verbatim>\<open>orderItems\<close> itself, not as text: read back,
  \<^verbatim>\<open>JSON.parse\<close> is given that array and reads its string form, the empty string or
  \<^verbatim>\<open>[object Object]\<close> once per entry, which is not JSON, so the column counts as \<open>Malformed\<close>.
\<close>

definition handlePlaceOrder ::
  "orders_table \<Rightarrow> bool \<Rightarrow> bool \<Rightarrow> string option \<Rightarrow> delivery_info \<Rightarrow> string \<Rightarrow> string \<Rightarrow> bool \<Rightarrow> orders_table" where
  "handlePlaceOrder tbl session signedUp user deliveryInfo newId now insertOk =
     (if \<not> session \<and> \<not> signedUp then tbl
      else (case user of
              None \<Rightarrow> tbl
            | Some uid \<Rightarrow>
                if deliveryInfo_address deliveryInfo \<noteq> [] \<and> insertOk then
                  tbl(newId \<mapsto> \<lparr>row_user_id = uid,
                                 row_status = JStr ''Order Placed (Making Order)'',
                                 row_items = Malformed,
                                 row_stages = Encoded (deliveryStages deliveryInfo),
                                 row_created_at = now\<rparr>)
                else tbl))"

section \<open>Stage transitions (\<^verbatim>\<open>advanceStage\<close>, \<^verbatim>\<open>confirmReceipt\<close>, TrackOrder.tsx)\<close>

text \<open>\<^verbatim>\<open>Array.prototype.findIndex\<close>: the index of the first match, or \<open>-1\<close>.\<close>

fun findIndex :: "('a \<Rightarrow> bool) \<Rightarrow> 'a list \<Rightarrow> int" where
  "findIndex P [] = - 1"
| "findIndex P (x # xs) =
     (if P x then 0 else (let r = findIndex P xs in if r < 0 then - 1 else r + 1))"

text \<open>
  How a call ends: it returned before any request, it sent the update and the storage
  accepted it (the page then refetches), it sent the update and the storage reported an
  error (the page alerts), or it threw.
\<close>

datatype outcome = Returned | Written | WriteFailed | Threw error

text \<open>
  \<^verbatim>\<open>advanceStage\<close>, over the page's \<^verbatim>\<open>order\<close> and \<^verbatim>\<open>user\<close>, the route's order id, the clock
  reading and the storage's answer to the update.
\<close>

definition advanceStage ::
  "orders_table \<Rightarrow> string \<Rightarrow> order option \<Rightarrow> string option \<Rightarrow> string \<Rightarrow> bool \<Rightarrow> orders_table \<times> outcome" where
  "advanceStage tbl orderId ord user now writeOk =
     (case ord of
        None \<Rightarrow> (tbl, Returned)
      | Some order \<Rightarrow>
          (case user of
             None \<Rightarrow> (tbl, Returned)
           | Some uid \<Rightarrow>
               (let currentIndex = findIndex (\<lambda>s. \<not> completed s) (stages order) in
                if currentIndex > - 1 \<and> currentIndex < int (length (stages order)) - 1 then
                  (let i = nat currentIndex;
                       updatedStages = (stages order)[i := (stages order ! i)\<lparr>completed := True, timestamp := JStr now\<rparr>]
                   in if writeOk then
                        (update_order tbl orderId uid (name (updatedStages ! (i + 1)))
                           (JSON_stringify_stages updatedStages), Written)
                      else (tbl, WriteFailed))
                else (tbl, Returned))))"

text \<open>
  \<^verbatim>\<open>confirmReceipt\<close>. On an empty stage list \<^verbatim>\<open>order.stages[order.stages.length - 1]\<close> is
  \<^verbatim>\<open>undefined\<close>, and reading its \<^verbatim>\<open>completed\<close> throws.
\<close>

definition confirmReceipt ::
  "orders_table \<Rightarrow> string \<Rightarrow> order option \<Rightarrow> string option \<Rightarrow> string \<Rightarrow> bool \<Rightarrow> orders_table \<times> outcome" where
  "confirmReceipt tbl orderId ord user now writeOk =
     (case ord of
        None \<Rightarrow> (tbl, Returned)
      | Some order \<Rightarrow>
          (case user of
             None \<Rightarrow> (tbl, Returned)
           | Some uid \<Rightarrow>
               if stages order = [] then (tbl, Threw TypeError)
               else if completed (last (stages order)) then (tbl, Returned)
               else
                 (let lastIndex = length (stages order) - 1;
                      updatedStages = (stages order)[lastIndex := (stages order ! lastIndex)\<lparr>completed := True, timestamp := JStr now\<rparr>]
                  in if writeOk then
                       (update_order tbl orderId uid (JStr ''Confirmed Received'')
                          (JSON_stringify_stages updatedStages), Written)
                     else (tbl, WriteFailed))))"

text \<open>
  The condition under which the page renders the "Confirm Received" button, the only caller
  of \<^verbatim>\<open>confirmReceipt\<close>:
  \<^verbatim>\<open>stages[stages.length - 1].name === 'Delivered' && !stages[stages.length - 1].completed\<close>.
  On an empty stage list the expression throws.
\<close>

definition confirmButtonShown :: "order \<Rightarrow> error + bool" where
  "confirmButtonShown order =
     (if stages order = [] then Inl TypeError
      else Inr (name (last (stages order)) = JStr ''Delivered'' \<and> \<not> completed (last (stages order))))"


section \<open>The tracking page as a state machine\<close>

text \<open>
  The page holds the table (the store it talks to) and its \<^verbatim>\<open>order\<close> state. A refetch that
  succeeds replaces the state; one that fails leaves the previous order in place.
\<close>

record page =
  tbl :: orders_table
  view :: "order option"

definition refetch :: "orders_table \<Rightarrow> string \<Rightarrow> string \<Rightarrow> order option \<Rightarrow> order option" where
  "refetch t oid uid cur =
     (case queryFn t (Some oid) True (Some uid) of Inr ord \<Rightarrow> Some ord | Inl e \<Rightarrow> cur)"

datatype action = Advance string bool | ConfirmReceipt string bool

text \<open>
  One click: the transition runs on the page's current order; after an accepted write the
  page refetches. Neither transition assigns the order state itself.
\<close>

definition step :: "string \<Rightarrow> string \<Rightarrow> action \<Rightarrow> page \<Rightarrow> page" where
  "step oid uid a p =
     (case (case a of
              Advance now ok \<Rightarrow> advanceStage (tbl p) oid (view p) (Some uid) now ok
            | ConfirmReceipt now ok \<Rightarrow> confirmReceipt (tbl p) oid (view p) (Some uid) now ok) of
        (t', out) \<Rightarrow>
          \<lparr>tbl = t', view = (if out = Written then refetch t' oid uid (view p) else view p)\<rparr>)"

fun run :: "string \<Rightarrow> string \<Rightarrow> action list \<Rightarrow> page \<Rightarrow> page" where
  "run oid uid [] p = p"
| "run oid uid (a # as) p = run oid uid as (step oid uid a p)"



section \<open>Properties of stage lists and pages\<close>

text \<open>
  What the normalising \<^verbatim>\<open>map\<close> guarantees of every stage it builds: a truthy name, and a
  timestamp that is truthy or the empty string.
\<close>

definition wf_stage :: "stage \<Rightarrow> bool" where
  "wf_stage s \<longleftrightarrow> truthy (name s) \<and> (truthy (timestamp s) \<or> timestamp s = JStr [])"

definition view_stages :: "page \<Rightarrow> stage list" where
  "view_stages p = (case view p of None \<Rightarrow> [] | Some ord \<Rightarrow> stages ord)"

definition view_ok :: "page \<Rightarrow> bool" where
  "view_ok p \<longleftrightarrow> list_all wf_stage (view_stages p)"

text \<open>
  The items part of the query lets the row through.
\<close>

definition items_ok :: "order_row \<Rightarrow> bool" where
  "items_ok row = (case enrichItems (parseItems (row_items row)) of Inl e \<Rightarrow> False | Inr items \<Rightarrow> True)"



text \<open>
  The list update both transitions apply to a copy of the stage list: the stage at one index
  is marked completed at the clock reading.
\<close>

definition mark_done :: "string \<Rightarrow> nat \<Rightarrow> stage list \<Rightarrow> stage list" where
  "mark_done now i ss = ss[i := (ss ! i)\<lparr>completed := True, timestamp := JStr now\<rparr>]"










fun is_Advance :: "action \<Rightarrow> bool" where
  "is_Advance (Advance now ok) = True"
| "is_Advance (ConfirmReceipt now ok) = False"

section \<open>Sample data for the concrete instances\<close>

text \<open>
  A table with two orders of buyer \<open>u1\<close>: \<open>o1\<close> as checkout stores it, and \<open>o2\<close> with an
  explicit three-stage list that ends in "Delivered"; \<open>sample_order1\<close> and
  \<open>sample_order2\<close> are the orders the query returns for them, and \<open>sample_page\<close> is the
  tracking page of an order after its first fetch.
\<close>

definition sample_created :: string where
  "sample_created = ''2024-01-01T08:00:00.000Z''"

definition sample_stages :: "stage list" where
  "sample_stages =
     [\<lparr>name = JStr ''Order Placed'', timestamp = JStr sample_created, completed = True\<rparr>,
      \<lparr>name = JStr ''Processing'', timestamp = JStr '''', completed = False\<rparr>,
      \<lparr>name = JStr ''Delivered'', timestamp = JStr '''', completed = False\<rparr>]"

definition sample_row1 :: order_row where
  "sample_row1 =
     \<lparr>row_user_id = ''u1'',
      row_status = JStr ''Order Placed (Making Order)'',
      row_items = Malformed,
      row_stages = Encoded (deliveryStages
         \<lparr>deliveryInfo_address = ''12 Farm Road'', deliveryInfo_instructions = ''Call at the gate''\<rparr>),
      row_created_at = sample_created\<rparr>"

definition sample_row2 :: order_row where
  "sample_row2 =
     \<lparr>row_user_id = ''u1'',
      row_status = JStr ''Processing'',
      row_items = Malformed,
      row_stages = JSON_stringify_stages sample_stages,
      row_created_at = sample_created\<rparr>"

definition sample_order1 :: order where
  "sample_order1 =
     \<lparr>order_id = ''o1'', user_id = ''u1'', status = JStr ''Order Placed (Making Order)'',
      stages = defaultStages sample_created, created_at = sample_created,
      delivery_address = JStr ''12 Farm Road'', instructions = JStr ''Call at the gate''\<rparr>"

definition sample_order2 :: order where
  "sample_order2 =
     \<lparr>order_id = ''o2'', user_id = ''u1'', status = JStr ''Processing'',
      stages = sample_stages, created_at = sample_created,
      delivery_address = JStr '''', instructions = JStr ''''\<rparr>"

definition sample_table :: orders_table where
  "sample_table = [''o1'' \<mapsto> sample_row1, ''o2'' \<mapsto> sample_row2]"

definition sample_page :: "string \<Rightarrow> page" where
  "sample_page oid = \<lparr>tbl = sample_table, view = refetch sample_table oid ''u1'' None\<rparr>"

text \<open>
  A third order, \<open>o3\<close>, whose stored list names its second stage "Confirmed Received" and
  its last stage "Delivered", so that the page offers both buttons; and a page on \<open>o2\<close>
  that is out of sync: it still holds the order as first fetched, while the stored row has
  since had "Processing" completed from elsewhere.
\<close>

definition sample_stages3 :: "stage list" where
  "sample_stages3 =
     [\<lparr>name = JStr ''Order Placed'', timestamp = JStr sample_created, completed = True\<rparr>,
      \<lparr>name = JStr ''Confirmed Received'', timestamp = JStr '''', completed = False\<rparr>,
      \<lparr>name = JStr ''Delivered'', timestamp = JStr '''', completed = False\<rparr>]"

definition sample_row3 :: order_row where
  "sample_row3 =
     \<lparr>row_user_id = ''u1'',
      row_status = JStr ''Confirmed Received'',
      row_items = Malformed,
      row_stages = JSON_stringify_stages sample_stages3,
      row_created_at = sample_created\<rparr>"




section \<open>Results on pricing\<close>

lemma find_qualifying:
  "List.find (\<lambda>t. q \<ge> min_quantity t) tiers =
     (case qualifying q tiers of [] \<Rightarrow> None | t # _ \<Rightarrow> Some t)"
  by (induction tiers) (auto simp: qualifying_def)

lemma getUnitPrice_first_qualifying:
  "getUnitPrice item =
     (case pricing_tiers item of
        None \<Rightarrow> price item
      | Some tiers \<Rightarrow>
          (case qualifying (quantity item) tiers of
             [] \<Rightarrow> price item
           | t # _ \<Rightarrow> tier_price t))"
  by (auto simp: getUnitPrice_def find_qualifying qualifying_def split: option.splits list.splits)

lemma getUnitPrice_none_qualifies:
  "pricing_tiers item = Some tiers \<Longrightarrow> qualifying (quantity item) tiers = [] \<Longrightarrow>
   getUnitPrice item = price item"
  by (simp add: getUnitPrice_first_qualifying)

lemma getUnitPrice_descending:
  assumes "pricing_tiers item = Some tiers"
    and "sorted_wrt (\<lambda>a b. min_quantity a \<ge> min_quantity b) tiers"
    and "qualifying (quantity item) tiers \<noteq> []"
  shows "\<exists>t. is_best_tier (quantity item) tiers t \<and> getUnitPrice item = tier_price t"
proof -
  obtain t ts where q: "qualifying (quantity item) tiers = t # ts"
    using assms(3) by (cases "qualifying (quantity item) tiers") auto
  have "sorted_wrt (\<lambda>a b. min_quantity a \<ge> min_quantity b) (qualifying (quantity item) tiers)"
    unfolding qualifying_def using assms(2) by (rule sorted_wrt_filter)
  with q have "\<forall>u\<in>set ts. min_quantity u \<le> min_quantity t"
    by simp
  with q have "is_best_tier (quantity item) tiers t"
    by (simp add: is_best_tier_def list_all_iff)
  moreover have "getUnitPrice item = tier_price t"
    using assms(1) q by (simp add: getUnitPrice_first_qualifying)
  ultimately show ?thesis by blast
qed

text \<open>
  Claim C1. The resolver should return the price of the qualifying tier with the largest
  threshold. \<^verbatim>\<open>getUnitPrice\<close> returns the first qualifying tier in stored order instead
  (\<open>getUnitPrice_first_qualifying\<close>), which is the largest one only when the tiers are stored
  in descending order (\<open>getUnitPrice_descending\<close>). On the tiers 5 \<mapsto> 90, 10 \<mapsto> 80 with
  base price 100 the quantities 1, 5 and 9 give 100, 90 and 90 as claimed, and the quantity
  10 gives 90, not 80.
\<close>

theorem getUnitPrice_ascending_tiers:
  "getUnitPrice \<lparr>price = 100, quantity = 1,
      pricing_tiers = Some [\<lparr>min_quantity = 5, tier_price = 90\<rparr>, \<lparr>min_quantity = 10, tier_price = 80\<rparr>]\<rparr> = 100
   \<and> getUnitPrice \<lparr>price = 100, quantity = 5,
      pricing_tiers = Some [\<lparr>min_quantity = 5, tier_price = 90\<rparr>, \<lparr>min_quantity = 10, tier_price = 80\<rparr>]\<rparr> = 90
   \<and> getUnitPrice \<lparr>price = 100, quantity = 9,
      pricing_tiers = Some [\<lparr>min_quantity = 5, tier_price = 90\<rparr>, \<lparr>min_quantity = 10, tier_price = 80\<rparr>]\<rparr> = 90
   \<and> getUnitPrice \<lparr>price = 100, quantity = 10,
      pricing_tiers = Some [\<lparr>min_quantity = 5, tier_price = 90\<rparr>, \<lparr>min_quantity = 10, tier_price = 80\<rparr>]\<rparr> = 90"
  by (simp add: getUnitPrice_def)

section \<open>Results on price parsing\<close>

lemma strip_replace_KES:
  "strip_non_numeric (replace_first ''KES '' '''' s) = strip_non_numeric s"
proof (induction s)
  case Nil
  show ?case by (simp add: strip_non_numeric_def)
next
  case (Cons c cs)
  show ?case
  proof (cases "take (length ''KES '') (c # cs) = ''KES ''")
    case True
    define d where "d = drop (length ''KES '') (c # cs)"
    have r: "replace_first ''KES '' '''' (c # cs) = d"
      unfolding d_def by (subst replace_first.simps) (simp only: True refl if_True append_Nil)
    have e: "c # cs = ''KES '' @ d"
      unfolding d_def by (metis True append_take_drop_id)
    have k: "strip_non_numeric (''KES '' @ d) = strip_non_numeric d"
      by (simp add: strip_non_numeric_def is_digit_def)
    show ?thesis
      unfolding r by (subst e) (rule k [symmetric])
  next
    case False
    have r: "replace_first ''KES '' '''' (c # cs) = c # replace_first ''KES '' '''' cs"
      by (subst replace_first.simps) (simp only: False if_False)
    show ?thesis
      unfolding r using Cons.IH by (simp only: strip_non_numeric_def filter.simps)
  qed
qed

lemma parseFloat_no_digit:
  assumes "\<forall>c\<in>set s. \<not> is_digit c"
  shows "parseFloat s = None"
proof -
  have ip: "takeWhile is_digit s = []"
    using assms by (cases s) auto
  have rest: "dropWhile is_digit s = s"
    using assms by (cases s) auto
  have fp: "takeWhile is_digit r = []" if "s = c # r" for c r
    using assms that by (cases r) auto
  show ?thesis
    unfolding parseFloat_def ip rest by (auto simp: Let_def fp split: list.splits)
qed

text \<open>
  \<^verbatim>\<open>parsePriceToNumber\<close>, the parser that feeds the cart, strips every character that is
  neither a digit nor a dot and reads the number that remains: \<^verbatim>\<open>"KES 1,200.50"\<close> gives
  1200.50, \<^verbatim>\<open>"n/a"\<close> gives 0, and so does every text without a digit. The function is total:
  it has no throwing branch.
\<close>

lemma parsePriceToNumber_strips:
  "parsePriceToNumber (PStr ''KES 1,200.50'') = 1200.50
   \<and> parsePriceToNumber (PStr ''n/a'') = 0
   \<and> (\<forall>s. parsePriceToNumber (PStr s) = or_zero (parseFloat (strip_non_numeric s)))
   \<and> (\<forall>s. (\<forall>c\<in>set s. \<not> is_digit c) \<longrightarrow> parsePriceToNumber (PStr s) = 0)"
proof (intro conjI allI impI)
  show "parsePriceToNumber (PStr ''KES 1,200.50'') = 1200.50"
    by (simp add: parsePriceToNumber_def strip_non_numeric_def is_digit_def parseFloat_def
        digits_val_def digit_val_def or_zero_def)
  show "parsePriceToNumber (PStr ''n/a'') = 0"
    by (simp add: parsePriceToNumber_def strip_non_numeric_def is_digit_def parseFloat_def
        digits_val_def digit_val_def or_zero_def)
  show "parsePriceToNumber (PStr s) = or_zero (parseFloat (strip_non_numeric s))" for s
    by (simp add: parsePriceToNumber_def strip_replace_KES)
  show "parsePriceToNumber (PStr s) = 0" if "\<forall>c\<in>set s. \<not> is_digit c" for s
  proof -
    have "\<forall>c\<in>set (strip_non_numeric s). \<not> is_digit c"
      using that by (simp add: strip_non_numeric_def)
    then show ?thesis
      by (simp add: parsePriceToNumber_def strip_replace_KES parseFloat_no_digit or_zero_def)
  qed
qed

text \<open>
  The two inline price expressions of the order view have no fallback on their string
  branch: on every text without a digit they yield \<^verbatim>\<open>NaN\<close>, whatever price was found before.
\<close>

lemma enrichPrice_no_digit:
  assumes "\<forall>c\<in>set s. \<not> is_digit c"
  shows "enrichPrice (PStr s) = None" and "enrichVariantPrice (PStr s) itemPrice = None"
proof -
  have "\<forall>c\<in>set (strip_non_numeric s). \<not> is_digit c"
    using assms by (simp add: strip_non_numeric_def)
  then have "parseFloat (strip_non_numeric s) = None"
    by (rule parseFloat_no_digit)
  then show "enrichPrice (PStr s) = None" and "enrichVariantPrice (PStr s) itemPrice = None"
    by (simp_all add: enrichPrice_def enrichVariantPrice_def)
qed

text \<open>
  Claim C6. The price parser should strip what is neither digit nor dot, give 1200.50 on
  \<^verbatim>\<open>"KES 1,200.50"\<close> and give 0 on a text without digits such as \<^verbatim>\<open>"n/a"\<close>.
  \<^verbatim>\<open>parsePriceToNumber\<close> does all of it. The order view's own price expressions strip in
  the same way and agree on \<^verbatim>\<open>"KES 1,200.50"\<close>, but on \<^verbatim>\<open>"n/a"\<close> they yield \<^verbatim>\<open>NaN\<close>, not 0:
  their \<^verbatim>\<open>|| 0\<close> and \<^verbatim>\<open>|| itemPrice\<close> belong to the non-string branch of the conditional.
\<close>

theorem order_view_price_is_NaN:
  "enrichPrice (PStr ''n/a'') = None
   \<and> enrichVariantPrice (PStr ''n/a'') (Some 0) = None
   \<and> parsePriceToNumber (PStr ''n/a'') = 0
   \<and> enrichPrice (PStr ''KES 1,200.50'') = Some 1200.50
   \<and> enrichVariantPrice (PStr ''KES 1,200.50'') (Some 0) = Some 1200.50
   \<and> parsePriceToNumber (PStr ''KES 1,200.50'') = 1200.50"
  by (simp add: enrichPrice_def enrichVariantPrice_def parsePriceToNumber_def strip_non_numeric_def
      is_digit_def parseFloat_def digits_val_def digit_val_def or_zero_def)

section \<open>Results on stage parsing\<close>

lemma normalize_defaults:
  "js_map normalizeStage (JArr (defaultStagesJs created)) = Inr (defaultStages created)"
  by (simp add: js_map_def defaultStagesJs_def defaultStages_def normalizeStage_def bindE_def js_or_def)

lemma parseStages_Absent: "parseStages Absent created = ([], JStr '''', JStr '''')"
  by (simp add: parseStages_def JSON_parse_or_empty_def extractDelivery_def isSingleDelivery_def
      js_findAddress_def js_map_def bindE_def)

lemma parseStages_Malformed: "parseStages Malformed created = (defaultStages created, JStr '''', JStr '''')"
  by (simp add: parseStages_def JSON_parse_or_empty_def bindE_def)

lemma extractDelivery_JStr: "extractDelivery (JStr s) created = Inl TypeError"
  by (cases s) (simp_all add: extractDelivery_def isSingleDelivery_def js_findAddress_def bindE_def)

lemma parseStages_not_array:
  "parseStages (Encoded JNull) created = (defaultStages created, JStr '''', JStr '''')"
  "parseStages (Encoded (JBool b)) created = (defaultStages created, JStr '''', JStr '''')"
  "parseStages (Encoded (JNum n)) created = (defaultStages created, JStr '''', JStr '''')"
  "parseStages (Encoded (JStr s)) created = (defaultStages created, JStr '''', JStr '''')"
  by (simp_all add: parseStages_def JSON_parse_or_empty_def extractDelivery_JStr bindE_def)
     (simp_all add: extractDelivery_def isSingleDelivery_def js_findAddress_def bindE_def)

lemma parseStages_delivery_entry:
  assumes "get x ''stage'' = Inr (JStr ''delivery'')"
    and "get x ''address'' = Inr a"
    and "get x ''instructions'' = Inr i"
  shows "parseStages (Encoded (JArr [x])) created =
           (defaultStages created, js_or a (JStr ''''), js_or i (JStr ''''))"
  using assms
  by (simp add: parseStages_def JSON_parse_or_empty_def extractDelivery_def isSingleDelivery_def
      bindE_def normalize_defaults)

text \<open>
  Claim C5. When the decoded value is an array of exactly one entry whose \<^verbatim>\<open>stage\<close> is
  \<^verbatim>\<open>"delivery"\<close>, the parser takes that entry's address and instructions (the empty string
  for a missing or falsy one) as the delivery information and substitutes the default
  six-stage workflow, first stage completed at the order's creation time. In particular the
  entry \<^verbatim>\<open>{stage: "delivery", address: "X"}\<close> gives the default workflow and the address "X".
\<close>

theorem parseStages_single_delivery:
  assumes "get x ''stage'' = Inr (JStr ''delivery'')"
    and "get x ''address'' = Inr a"
    and "get x ''instructions'' = Inr i"
  shows "parseStages (Encoded (JArr [x])) created =
           (defaultStages created, js_or a (JStr ''''), js_or i (JStr ''''))"
  using assms by (rule parseStages_delivery_entry)

theorem parseStages_single_delivery_witness:
  "parseStages (Encoded (JArr [JObj [(''stage'', JStr ''delivery''), (''address'', JStr ''X'')]]))
      ''2024-01-01T00:00:00.000Z'' =
     (defaultStages ''2024-01-01T00:00:00.000Z'', JStr ''X'', JStr '''')"
  using parseStages_single_delivery [of "JObj [(''stage'', JStr ''delivery''), (''address'', JStr ''X'')]"
      "JStr ''X''" JUndefined "''2024-01-01T00:00:00.000Z''"]
  by (simp add: js_or_def)


text \<open>
  Claim C2, as stated, fails for an absent field: the page decodes \<^verbatim>\<open>'[]'\<close> in its place,
  and the result is the empty stage list, not the default workflow.
\<close>

theorem parseStages_undefined_is_empty:
  "parseStages Absent ''2024-01-01T00:00:00.000Z'' = ([], JStr '''', JStr '''')
   \<and> fst (parseStages Absent ''2024-01-01T00:00:00.000Z'') \<noteq> defaultStages ''2024-01-01T00:00:00.000Z''"
  by (simp add: parseStages_Absent defaultStages_def)

text \<open>
  Claim C2, amended. When the raw value fails to decode as a list of stage objects (the text
  is not JSON, or it decodes to null, a boolean, a number or a string), the parser returns
  the default six-stage workflow, "Order Placed" completed at the order's creation time and
  the five later stages incomplete. When the field is absent the parser returns the empty
  stage list. \<^const>\<open>parseStages\<close> is total and has no error result: it never raises.
\<close>

theorem parseStages_decode_failure:
  "parseStages Malformed created = (defaultStages created, JStr '''', JStr '''')
   \<and> parseStages (Encoded JNull) created = (defaultStages created, JStr '''', JStr '''')
   \<and> parseStages (Encoded (JBool b)) created = (defaultStages created, JStr '''', JStr '''')
   \<and> parseStages (Encoded (JNum n)) created = (defaultStages created, JStr '''', JStr '''')
   \<and> parseStages (Encoded (JStr s)) created = (defaultStages created, JStr '''', JStr '''')
   \<and> parseStages Absent created = ([], JStr '''', JStr '''')
   \<and> map name (defaultStages created) =
         [JStr ''Order Placed'', JStr ''Payment Pending'', JStr ''Processing'',
          JStr ''Shipped'', JStr ''Delivered'', JStr ''Confirmed Received'']
   \<and> map completed (defaultStages created) = [True, False, False, False, False, False]
   \<and> timestamp (hd (defaultStages created)) = JStr created"
  by (simp add: parseStages_Malformed parseStages_not_array parseStages_Absent)
     (simp add: defaultStages_def)

text \<open>
  Claim C9. Every row that \<^verbatim>\<open>handlePlaceOrder\<close> adds to the table carries, as its stages, the
  single delivery-tagged record built from the checkout form; parsing it takes the
  single-delivery branch and yields the default six-stage workflow at the row's creation
  time, with exactly the address and the instructions entered at checkout.
\<close>

theorem placed_order_parses_to_default:
  assumes "handlePlaceOrder t session signedUp user di newId now insertOk = t'"
    and "t' \<noteq> t"
  shows "\<exists>uid. user = Some uid \<and>
           t' newId = Some \<lparr>row_user_id = uid,
                               row_status = JStr ''Order Placed (Making Order)'',
                               row_items = Malformed,
                               row_stages = Encoded (deliveryStages di),
                               row_created_at = now\<rparr> \<and>
           parseStages (Encoded (deliveryStages di)) now =
             (defaultStages now, JStr (deliveryInfo_address di), JStr (deliveryInfo_instructions di))"
proof -
  from assms obtain uid where u: "user = Some uid"
    and a: "deliveryInfo_address di \<noteq> []" and ok: "insertOk" and s: "session \<or> signedUp"
    by (auto simp: handlePlaceOrder_def split: if_splits option.splits)
  have row: "t' newId = Some \<lparr>row_user_id = uid,
                               row_status = JStr ''Order Placed (Making Order)'',
                               row_items = Malformed,
                               row_stages = Encoded (deliveryStages di),
                               row_created_at = now\<rparr>"
    using assms(1) u a ok s by (auto simp: handlePlaceOrder_def)
  have "parseStages (Encoded (deliveryStages di)) now =
          (defaultStages now, js_or (JStr (deliveryInfo_address di))  (JStr ''''),
           js_or (JStr (deliveryInfo_instructions di)) (JStr ''''))"
    unfolding deliveryStages_def
    by (rule parseStages_delivery_entry) simp_all
  then have "parseStages (Encoded (deliveryStages di)) now =
          (defaultStages now, JStr (deliveryInfo_address di), JStr (deliveryInfo_instructions di))"
    by (simp add: js_or_def)
  with u row show ?thesis by blast
qed

theorem placed_order_parses_to_default_witness:
  "parseStages (Encoded (deliveryStages \<lparr>deliveryInfo_address = ''12 Farm Road'', deliveryInfo_instructions = ''Call at the gate''\<rparr>))
      ''2024-01-01T00:00:00.000Z'' =
     (defaultStages ''2024-01-01T00:00:00.000Z'', JStr ''12 Farm Road'', JStr ''Call at the gate'')
   \<and> handlePlaceOrder Map.empty True False (Some ''u1'')
        \<lparr>deliveryInfo_address = ''12 Farm Road'', deliveryInfo_instructions = ''Call at the gate''\<rparr>
        ''o1'' ''2024-01-01T00:00:00.000Z'' True \<noteq> Map.empty"
proof -
  let ?di = "\<lparr>deliveryInfo_address = ''12 Farm Road'', deliveryInfo_instructions = ''Call at the gate''\<rparr>"
  let ?t = "handlePlaceOrder Map.empty True False (Some ''u1'') ?di ''o1'' ''2024-01-01T00:00:00.000Z'' True"
  have ne: "?t \<noteq> Map.empty"
    by (simp add: handlePlaceOrder_def)
  from placed_order_parses_to_default [OF refl ne] ne show ?thesis
    by simp
qed


section \<open>Results on the parser's output and its round trip\<close>

lemma normalizeStage_stageToJs:
  "wf_stage s \<Longrightarrow> normalizeStage (stageToJs s) = Inr s"
  by (cases s) (auto simp: wf_stage_def normalizeStage_def stageToJs_def bindE_def js_or_def)

lemma mapE_normalize_stringified:
  "list_all wf_stage ss \<Longrightarrow> mapE normalizeStage (map stageToJs ss) = Inr ss"
  by (induction ss) (simp_all add: normalizeStage_stageToJs bindE_def)

lemma findAddress_stringified: "findAddress (map stageToJs ss) = Inr JUndefined"
  by (induction ss) (simp_all add: stageToJs_def bindE_def)

lemma isSingleDelivery_stringified: "isSingleDelivery (JArr (map stageToJs ss)) = Inr False"
  by (cases ss) (simp_all add: isSingleDelivery_def stageToJs_def bindE_def)

lemma parseStages_stringify:
  "list_all wf_stage ss \<Longrightarrow> parseStages (JSON_stringify_stages ss) created = (ss, JStr [], JStr [])"
  by (simp add: parseStages_def JSON_stringify_stages_def JSON_parse_or_empty_def extractDelivery_def
      isSingleDelivery_stringified js_findAddress_def findAddress_stringified js_map_def
      mapE_normalize_stringified bindE_def)

lemma normalizeStage_wf: "normalizeStage v = Inr s \<Longrightarrow> wf_stage s"
  by (auto simp: normalizeStage_def bindE_def wf_stage_def js_or_def split: sum.splits if_splits)

lemma mapE_normalize_wf: "mapE normalizeStage vs = Inr ss \<Longrightarrow> list_all wf_stage ss"
proof (induction vs arbitrary: ss)
  case Nil
  then show ?case by simp
next
  case (Cons v vs)
  then show ?case
    by (auto simp: bindE_def normalizeStage_wf split: sum.splits)
qed

lemma defaultStages_wf: "list_all wf_stage (defaultStages created)"
  by (simp add: defaultStages_def wf_stage_def)

lemma parseStages_wf: "list_all wf_stage (fst (parseStages raw created))"
  by (auto simp: parseStages_def js_map_def defaultStages_wf mapE_normalize_wf
      split: sum.splits prod.splits jsval.splits)

lemma items_ok_Malformed: "row_items row = Malformed \<Longrightarrow> items_ok row"
  by (simp add: items_ok_def parseItems_def JSON_parse_or_empty_def enrichItems_def js_map_def)

lemma items_ok_update: "items_ok (row\<lparr>row_status := st, row_stages := stg\<rparr>) = items_ok row"
  by (simp add: items_ok_def)

lemma queryFn_Inr:
  assumes "queryFn t oid session user = Inr ord"
  obtains k row where "oid = Some k" and "k \<noteq> []" and "session" and "user = Some (row_user_id row)"
    and "t k = Some row" and "items_ok row"
    and "ord = \<lparr>order_id = k, user_id = row_user_id row, status = row_status row,
                 stages = fst (parseStages (row_stages row) (row_created_at row)),
                 created_at = row_created_at row,
                 delivery_address = fst (snd (parseStages (row_stages row) (row_created_at row))),
                 instructions = snd (snd (parseStages (row_stages row) (row_created_at row)))\<rparr>"
  using assms
  by (auto simp: queryFn_def select_single_def case_prod_beta items_ok_def
      split: option.splits if_splits sum.splits)

lemma queryFn_wf: "queryFn t oid session user = Inr ord \<Longrightarrow> list_all wf_stage (stages ord)"
  by (erule queryFn_Inr) (simp add: parseStages_wf)

lemma queryFn_owner:
  assumes "t oid = Some row" and "oid \<noteq> []" and "row_user_id row = uid" and "items_ok row"
  shows "queryFn t (Some oid) True (Some uid) =
           Inr \<lparr>order_id = oid, user_id = row_user_id row, status = row_status row,
                 stages = fst (parseStages (row_stages row) (row_created_at row)),
                 created_at = row_created_at row,
                 delivery_address = fst (snd (parseStages (row_stages row) (row_created_at row))),
                 instructions = snd (snd (parseStages (row_stages row) (row_created_at row)))\<rparr>"
  using assms
  by (simp add: queryFn_def select_single_def case_prod_beta items_ok_def split: sum.splits)

lemma queryFn_denied:
  assumes "t oid = Some row" and "oid \<noteq> []" and "row_user_id row \<noteq> uid"
  shows "queryFn t (Some oid) True (Some uid) = Inl AccessDenied"
  using assms by (simp add: queryFn_def select_single_def)

text \<open>Every page that has just been loaded holds well-formed stages.\<close>

lemma loaded_page_ok: "view_ok \<lparr>tbl = t, view = refetch t oid uid None\<rparr>"
proof (cases "queryFn t (Some oid) True (Some uid)")
  case (Inl e)
  then show ?thesis by (simp add: view_ok_def view_stages_def refetch_def)
next
  case (Inr ord)
  then have "list_all wf_stage (stages ord)" by (rule queryFn_wf)
  with Inr show ?thesis by (simp add: view_ok_def view_stages_def refetch_def)
qed

section \<open>Results on stage transitions\<close>

lemma findIndex_ge: "- 1 \<le> findIndex P xs"
  by (induction xs) (auto simp: Let_def)

lemma findIndex_none: "findIndex P xs = - 1 \<longleftrightarrow> (\<forall>x\<in>set xs. \<not> P x)"
proof (induction xs)
  case Nil
  show ?case by simp
next
  case (Cons x xs)
  have "- 1 \<le> findIndex P xs" by (rule findIndex_ge)
  with Cons show ?case by (auto simp: Let_def)
qed

lemma findIndex_first:
  assumes "i < length xs" and "P (xs ! i)" and "\<forall>j<i. \<not> P (xs ! j)"
  shows "findIndex P xs = int i"
  using assms
proof (induction xs arbitrary: i)
  case Nil
  then show ?case by simp
next
  case (Cons x xs)
  show ?case
  proof (cases i)
    case 0
    with Cons.prems show ?thesis by simp
  next
    case (Suc k)
    with Cons.prems have nx: "\<not> P x" by auto
    from Suc Cons.prems have "k < length xs" "P (xs ! k)" "\<forall>j<k. \<not> P (xs ! j)" by auto
    then have "findIndex P xs = int k" by (rule Cons.IH)
    with nx Suc show ?thesis by (simp add: Let_def)
  qed
qed


text \<open>
  Claim C4. In a six-stage workflow whose current stage (the first incomplete one) has
  index \<open>i < 5\<close>, \<^verbatim>\<open>advanceStage\<close> by the owner, with the write accepted, stores the stage
  list with stage \<open>i\<close> completed at the current time and sets the status to the name of
  stage \<open>i + 1\<close>. On an order with no incomplete stage it returns at once and changes nothing.
\<close>

theorem advanceStage_next_stage:
  "(length (stages ord) = 6 \<and> i < 5 \<and> \<not> completed (stages ord ! i) \<and>
      (\<forall>j<i. completed (stages ord ! j)) \<and> t oid = Some row \<and> row_user_id row = uid
     \<longrightarrow> advanceStage t oid (Some ord) (Some uid) now True =
           (t(oid \<mapsto> row\<lparr>row_status := name (stages ord ! (i + 1)),
                          row_stages := JSON_stringify_stages
                            ((stages ord)[i := (stages ord ! i)\<lparr>completed := True, timestamp := JStr now\<rparr>])\<rparr>),
            Written))
   \<and> (list_all completed (stages ord)
     \<longrightarrow> advanceStage t oid (Some ord) user now ok = (t, Returned))"
proof (intro conjI impI)
  assume a: "length (stages ord) = 6 \<and> i < 5 \<and> \<not> completed (stages ord ! i) \<and>
      (\<forall>j<i. completed (stages ord ! j)) \<and> t oid = Some row \<and> row_user_id row = uid"
  then have "findIndex (\<lambda>s. \<not> completed s) (stages ord) = int i"
    by (intro findIndex_first) auto
  with a show "advanceStage t oid (Some ord) (Some uid) now True =
           (t(oid \<mapsto> row\<lparr>row_status := name (stages ord ! (i + 1)),
                          row_stages := JSON_stringify_stages
                            ((stages ord)[i := (stages ord ! i)\<lparr>completed := True, timestamp := JStr now\<rparr>])\<rparr>),
            Written)"
    by (simp add: advanceStage_def update_order_def Let_def)
next
  assume "list_all completed (stages ord)"
  then have "findIndex (\<lambda>s. \<not> completed s) (stages ord) = - 1"
    by (simp add: findIndex_none list_all_iff)
  then show "advanceStage t oid (Some ord) user now ok = (t, Returned)"
    by (simp add: advanceStage_def split: option.splits)
qed

lemma sample_rows_items_ok: "items_ok sample_row1" "items_ok sample_row2" "items_ok sample_row3"
  by (simp_all add: items_ok_Malformed sample_row1_def sample_row2_def sample_row3_def)

lemma sample_view1: "view (sample_page ''o1'') = Some sample_order1"
proof -
  have "parseStages (row_stages sample_row1) (row_created_at sample_row1) =
          (defaultStages sample_created, js_or (JStr ''12 Farm Road'') (JStr []),
           js_or (JStr ''Call at the gate'') (JStr []))"
    unfolding sample_row1_def deliveryStages_def
    by (simp, rule parseStages_delivery_entry) simp_all
  moreover have "queryFn sample_table (Some ''o1'') True (Some ''u1'') =
      Inr \<lparr>order_id = ''o1'', user_id = row_user_id sample_row1, status = row_status sample_row1,
            stages = fst (parseStages (row_stages sample_row1) (row_created_at sample_row1)),
            created_at = row_created_at sample_row1,
            delivery_address = fst (snd (parseStages (row_stages sample_row1) (row_created_at sample_row1))),
            instructions = snd (snd (parseStages (row_stages sample_row1) (row_created_at sample_row1)))\<rparr>"
    by (rule queryFn_owner) (simp_all add: sample_table_def sample_rows_items_ok, simp add: sample_row1_def)
  ultimately show ?thesis
    by (simp add: sample_page_def refetch_def js_or_def sample_row1_def sample_order1_def)
qed

lemma sample_stages_wf: "list_all wf_stage sample_stages"
  by (simp add: sample_stages_def wf_stage_def sample_created_def)

lemma sample_query2: "queryFn sample_table (Some ''o2'') True (Some ''u1'') = Inr sample_order2"
proof -
  have "queryFn sample_table (Some ''o2'') True (Some ''u1'') =
      Inr \<lparr>order_id = ''o2'', user_id = row_user_id sample_row2, status = row_status sample_row2,
            stages = fst (parseStages (row_stages sample_row2) (row_created_at sample_row2)),
            created_at = row_created_at sample_row2,
            delivery_address = fst (snd (parseStages (row_stages sample_row2) (row_created_at sample_row2))),
            instructions = snd (snd (parseStages (row_stages sample_row2) (row_created_at sample_row2)))\<rparr>"
    by (rule queryFn_owner) (simp_all add: sample_table_def sample_rows_items_ok, simp add: sample_row2_def)
  then show ?thesis
    by (simp add: sample_row2_def parseStages_stringify sample_stages_wf sample_order2_def)
qed

lemma sample_view2: "view (sample_page ''o2'') = Some sample_order2"
  by (simp add: sample_page_def refetch_def sample_query2)

theorem advanceStage_next_stage_witness:
  "advanceStage sample_table ''o1'' (Some sample_order1) (Some ''u1'') ''2024-01-02T09:30:00.000Z'' True =
     (sample_table(''o1'' \<mapsto> sample_row1
        \<lparr>row_status := JStr ''Processing'',
         row_stages := JSON_stringify_stages
           ((defaultStages sample_created)
              [1 := \<lparr>name = JStr ''Payment Pending'', timestamp = JStr ''2024-01-02T09:30:00.000Z'',
                      completed = True\<rparr>])\<rparr>),
      Written)
   \<and> advanceStage sample_table ''o2''
        (Some (sample_order2\<lparr>stages := map (\<lambda>s. s\<lparr>completed := True\<rparr>) sample_stages\<rparr>))
        (Some ''u1'') ''2024-01-02T09:30:00.000Z'' True = (sample_table, Returned)"
proof -
  let ?o2 = "sample_order2\<lparr>stages := map (\<lambda>s. s\<lparr>completed := True\<rparr>) sample_stages\<rparr>"
  have a: "length (stages sample_order1) = 6 \<and> (1::nat) < 5 \<and> \<not> completed (stages sample_order1 ! 1) \<and>
      (\<forall>j<1. completed (stages sample_order1 ! j)) \<and> sample_table ''o1'' = Some sample_row1 \<and>
      row_user_id sample_row1 = ''u1''"
    by (simp add: sample_order1_def defaultStages_def sample_table_def sample_row1_def)
  have b: "list_all completed (stages ?o2)"
    by (simp add: sample_stages_def)
  from advanceStage_next_stage [where ord = sample_order1 and i = 1 and t = sample_table and oid = "''o1''"
      and row = sample_row1 and uid = "''u1''" and now = "''2024-01-02T09:30:00.000Z''"] a
  have "advanceStage sample_table ''o1'' (Some sample_order1) (Some ''u1'') ''2024-01-02T09:30:00.000Z'' True =
     (sample_table(''o1'' \<mapsto> sample_row1
        \<lparr>row_status := name (stages sample_order1 ! (1 + 1)),
         row_stages := JSON_stringify_stages
           ((stages sample_order1)[1 := (stages sample_order1 ! 1)\<lparr>completed := True, timestamp := JStr ''2024-01-02T09:30:00.000Z''\<rparr>])\<rparr>),
      Written)"
    by blast
  moreover from advanceStage_next_stage [where ord = ?o2 and t = sample_table and oid = "''o2''"
      and user = "Some ''u1''" and now = "''2024-01-02T09:30:00.000Z''" and ok = True] b
  have "advanceStage sample_table ''o2'' (Some ?o2) (Some ''u1'') ''2024-01-02T09:30:00.000Z'' True =
          (sample_table, Returned)"
    by blast
  ultimately show ?thesis
    by (simp add: sample_order1_def defaultStages_def)
qed

lemma update_order_cases:
  "update_order t oid uid st stg = t \<or>
   (\<exists>row. t oid = Some row \<and> row_user_id row = uid \<and>
      update_order t oid uid st stg = t(oid \<mapsto> row\<lparr>row_status := st, row_stages := stg\<rparr>))"
  by (auto simp: update_order_def split: option.splits)

lemma update_order_other_owner:
  "t oid = Some row \<Longrightarrow> row_user_id row \<noteq> uid \<Longrightarrow> update_order t oid uid st stg = t"
  by (simp add: update_order_def)

lemma advanceStage_cases:
  "advanceStage t oid ov user now ok = (t, Returned) \<or>
   advanceStage t oid ov user now ok = (t, WriteFailed) \<or>
   (\<exists>ord uid i. ov = Some ord \<and> user = Some uid \<and> ok \<and>
      findIndex (\<lambda>s. \<not> completed s) (stages ord) = int i \<and> i + 1 < length (stages ord) \<and>
      advanceStage t oid ov user now ok =
        (update_order t oid uid (name (stages ord ! (i + 1)))
           (JSON_stringify_stages
              ((stages ord)[i := (stages ord ! i)\<lparr>completed := True, timestamp := JStr now\<rparr>])),
         Written))"
proof (cases ov)
  case None
  then show ?thesis by (simp add: advanceStage_def)
next
  case (Some ord)
  show ?thesis
  proof (cases user)
    case None
    with Some show ?thesis by (simp add: advanceStage_def)
  next
    case (Some uid)
    let ?c = "findIndex (\<lambda>s. \<not> completed s) (stages ord)"
    show ?thesis
    proof (cases "?c > - 1 \<and> ?c < int (length (stages ord)) - 1")
      case False
      with \<open>ov = Some ord\<close> Some show ?thesis
        by (auto simp: advanceStage_def Let_def)
    next
      case True
      define i where "i = nat ?c"
      from True have i: "?c = int i" and lt: "i + 1 < length (stages ord)"
        unfolding i_def by auto
      have "advanceStage t oid ov user now ok =
              (if ok then (update_order t oid uid (name (stages ord ! (i + 1)))
                 (JSON_stringify_stages
                    ((stages ord)[i := (stages ord ! i)\<lparr>completed := True, timestamp := JStr now\<rparr>])),
                 Written)
               else (t, WriteFailed))"
        using True \<open>ov = Some ord\<close> Some lt unfolding i_def
        by (simp add: advanceStage_def Let_def)
      with i lt \<open>ov = Some ord\<close> Some show ?thesis
        by (cases ok) auto
    qed
  qed
qed

lemma confirmReceipt_cases:
  "confirmReceipt t oid ov user now ok = (t, Returned) \<or>
   confirmReceipt t oid ov user now ok = (t, WriteFailed) \<or>
   confirmReceipt t oid ov user now ok = (t, Threw TypeError) \<or>
   (\<exists>ord uid. ov = Some ord \<and> user = Some uid \<and> ok \<and>
      stages ord \<noteq> [] \<and> \<not> completed (last (stages ord)) \<and>
      confirmReceipt t oid ov user now ok =
        (update_order t oid uid (JStr ''Confirmed Received'')
           (JSON_stringify_stages
              ((stages ord)[length (stages ord) - 1 :=
                 (stages ord ! (length (stages ord) - 1))\<lparr>completed := True, timestamp := JStr now\<rparr>])),
         Written))"
  by (auto simp: confirmReceipt_def Let_def split: option.splits)

section \<open>Results on the tracking page\<close>

lemma refetch_after_update:
  assumes "list_all wf_stage ss" and "oid \<noteq> []" and "row_user_id row = uid" and "items_ok row"
  shows "refetch (t(oid \<mapsto> row\<lparr>row_status := st, row_stages := JSON_stringify_stages ss\<rparr>)) oid uid cur =
           Some \<lparr>order_id = oid, user_id = uid, status = st, stages = ss,
                 created_at = row_created_at row, delivery_address = JStr [], instructions = JStr []\<rparr>"
proof -
  let ?row = "row\<lparr>row_status := st, row_stages := JSON_stringify_stages ss\<rparr>"
  have "queryFn (t(oid \<mapsto> ?row)) (Some oid) True (Some uid) =
      Inr \<lparr>order_id = oid, user_id = row_user_id ?row, status = row_status ?row,
            stages = fst (parseStages (row_stages ?row) (row_created_at ?row)),
            created_at = row_created_at ?row,
            delivery_address = fst (snd (parseStages (row_stages ?row) (row_created_at ?row))),
            instructions = snd (snd (parseStages (row_stages ?row) (row_created_at ?row)))\<rparr>"
    using assms by (intro queryFn_owner) (simp_all add: items_ok_update)
  with assms show ?thesis
    by (simp add: refetch_def parseStages_stringify)
qed

lemma refetch_stages:
  "refetch t oid uid cur = cur \<or>
   (\<exists>row ord. t oid = Some row \<and> row_user_id row = uid \<and> refetch t oid uid cur = Some ord \<and>
      stages ord = fst (parseStages (row_stages row) (row_created_at row)))"
proof (cases "queryFn t (Some oid) True (Some uid)")
  case (Inl e)
  then show ?thesis by (simp add: refetch_def)
next
  case (Inr ord)
  then show ?thesis
    by (auto simp: refetch_def elim!: queryFn_Inr)
qed

lemma mark_done_wf:
  "list_all wf_stage ss \<Longrightarrow> list_all wf_stage (mark_done now i ss)"
proof (cases "i < length ss")
  case True
  assume w: "list_all wf_stage ss"
  with True have "wf_stage (ss ! i)" by (simp add: list_all_length)
  then have "wf_stage ((ss ! i)\<lparr>completed := True, timestamp := JStr now\<rparr>)"
    by (cases now) (simp_all add: wf_stage_def)
  with w show ?thesis
    unfolding mark_done_def list_all_iff by (metis set_update_subset_insert subsetD insertE)
next
  case False
  then show "list_all wf_stage ss \<Longrightarrow> list_all wf_stage (mark_done now i ss)"
    by (simp add: mark_done_def list_update_beyond)
qed

lemma refetch_update_order:
  assumes "list_all wf_stage ss"
  shows "refetch (update_order t oid uid st (JSON_stringify_stages ss)) oid uid cur = cur \<or>
         (\<exists>ord'. refetch (update_order t oid uid st (JSON_stringify_stages ss)) oid uid cur = Some ord' \<and>
            stages ord' = ss)"
proof (cases "t oid")
  case None
  then show ?thesis
    by (simp add: update_order_def refetch_def queryFn_def select_single_def)
next
  case (Some row)
  show ?thesis
  proof (cases "row_user_id row = uid \<and> oid \<noteq> [] \<and> items_ok row")
    case True
    with Some assms show ?thesis
      by (simp add: update_order_def refetch_after_update)
  next
    case False
    with Some show ?thesis
      by (auto simp: update_order_def refetch_def queryFn_def select_single_def items_ok_def
          split: sum.splits)
  qed
qed

lemma step_view_cases:
  assumes "view_ok p"
  shows "view (step oid uid a p) = view p \<or>
         (\<exists>ord ord' i now. view p = Some ord \<and> view (step oid uid a p) = Some ord' \<and>
            stages ord' = mark_done now i (stages ord) \<and>
            ((a = Advance now True \<and> findIndex (\<lambda>s. \<not> completed s) (stages ord) = int i \<and>
                i + 1 < length (stages ord)) \<or>
             (a = ConfirmReceipt now True \<and> stages ord \<noteq> [] \<and> i = length (stages ord) - 1 \<and>
                \<not> completed (last (stages ord)))))"
proof (cases a)
  case (Advance now ok)
  let ?r = "advanceStage (tbl p) oid (view p) (Some uid) now ok"
  from advanceStage_cases [of "tbl p" oid "view p" "Some uid" now ok]
  consider (same) "snd ?r \<noteq> Written"
    | (written) ord i where "view p = Some ord" "ok"
        "findIndex (\<lambda>s. \<not> completed s) (stages ord) = int i" "i + 1 < length (stages ord)"
        "?r = (update_order (tbl p) oid uid (name (stages ord ! (i + 1)))
                 (JSON_stringify_stages (mark_done now i (stages ord))), Written)"
    unfolding mark_done_def by fastforce
  then show ?thesis
  proof cases
    case same
    then show ?thesis using Advance by (simp add: step_def case_prod_beta)
  next
    case written
    have wf: "list_all wf_stage (mark_done now i (stages ord))"
      using assms written(1) by (simp add: view_ok_def view_stages_def mark_done_wf)
    have v: "view (step oid uid a p) =
               refetch (update_order (tbl p) oid uid (name (stages ord ! (i + 1)))
                 (JSON_stringify_stages (mark_done now i (stages ord)))) oid uid (view p)"
      using Advance written by (simp add: step_def)
    from refetch_update_order [OF wf, of "tbl p" oid uid "name (stages ord ! (i + 1))" "view p"]
    show ?thesis
      unfolding v using written Advance by auto
  qed
next
  case (ConfirmReceipt now ok)
  let ?r = "confirmReceipt (tbl p) oid (view p) (Some uid) now ok"
  from confirmReceipt_cases [of "tbl p" oid "view p" "Some uid" now ok]
  consider (same) "snd ?r \<noteq> Written"
    | (written) ord where "view p = Some ord" "ok" "stages ord \<noteq> []" "\<not> completed (last (stages ord))"
        "?r = (update_order (tbl p) oid uid (JStr ''Confirmed Received'')
                 (JSON_stringify_stages (mark_done now (length (stages ord) - 1) (stages ord))), Written)"
    unfolding mark_done_def by fastforce
  then show ?thesis
  proof cases
    case same
    then show ?thesis using ConfirmReceipt by (simp add: step_def case_prod_beta)
  next
    case written
    have wf: "list_all wf_stage (mark_done now (length (stages ord) - 1) (stages ord))"
      using assms written(1) by (simp add: view_ok_def view_stages_def mark_done_wf)
    have v: "view (step oid uid a p) =
               refetch (update_order (tbl p) oid uid (JStr ''Confirmed Received'')
                 (JSON_stringify_stages (mark_done now (length (stages ord) - 1) (stages ord)))) oid uid (view p)"
      using ConfirmReceipt written by (simp add: step_def)
    from refetch_update_order [OF wf, of "tbl p" oid uid "JStr ''Confirmed Received''" "view p"]
    show ?thesis
      unfolding v using written ConfirmReceipt by auto
  qed
qed

lemma view_stages_step_cases:
  assumes "view_ok p"
  shows "view_stages (step oid uid a p) = view_stages p \<or>
         (\<exists>i now. view_stages (step oid uid a p) = mark_done now i (view_stages p) \<and>
            ((a = Advance now True \<and> findIndex (\<lambda>s. \<not> completed s) (view_stages p) = int i \<and>
                i + 1 < length (view_stages p)) \<or>
             (a = ConfirmReceipt now True \<and> view_stages p \<noteq> [] \<and> i = length (view_stages p) - 1 \<and>
                \<not> completed (last (view_stages p)))))"
  using step_view_cases [OF assms, of oid uid a]
  by (auto simp: view_stages_def)




lemma step_view_ok: "view_ok p \<Longrightarrow> view_ok (step oid uid a p)"
  using view_stages_step_cases [of p oid uid a]
  by (auto simp: view_ok_def mark_done_wf)





lemma step_advance_last:
  assumes "view_ok p" and "is_Advance a"
  shows "last (view_stages (step oid uid a p)) = last (view_stages p) \<and>
         length (view_stages (step oid uid a p)) = length (view_stages p)"
proof -
  have "last (mark_done now i ss) = last ss" if "i + 1 < length ss" for now i and ss :: "stage list"
  proof -
    from that have "ss \<noteq> []" and "i \<noteq> length ss - 1" by auto
    then show ?thesis by (simp add: mark_done_def last_list_update)
  qed
  then show ?thesis
    using view_stages_step_cases [OF assms(1), of oid uid a] assms(2)
    by (auto simp: mark_done_def)
qed

lemma run_advance_last:
  assumes "view_ok p" and "list_all is_Advance as"
  shows "last (view_stages (run oid uid as p)) = last (view_stages p) \<and>
         length (view_stages (run oid uid as p)) = length (view_stages p)"
  using assms
proof (induction as arbitrary: p)
  case Nil
  show ?case by simp
next
  case (Cons a as)
  then have "view_ok (step oid uid a p)" and "list_all is_Advance as" and "is_Advance a"
    by (simp_all add: step_view_ok)
  with Cons.IH [of "step oid uid a p"] step_advance_last [of p a oid uid] Cons.prems(1)
  show ?case by simp
qed

text \<open>
  Claim C10. \<^verbatim>\<open>advanceStage\<close> never completes the final stage: the stage list it writes
  has the length and the last stage of the order it was applied to, because it only updates
  an index strictly below the last one. On the page, any sequence of advance clicks leaves
  the last stage as it was, so only \<^verbatim>\<open>confirmReceipt\<close> can complete it.
\<close>

theorem advanceStage_keeps_last_stage:
  "(\<exists>ss. length ss = length (stages ord) \<and> last ss = last (stages ord) \<and>
        (fst (advanceStage t oid (Some ord) user now ok) = t \<or>
         (\<exists>row st. t oid = Some row \<and>
            fst (advanceStage t oid (Some ord) user now ok) =
              t(oid \<mapsto> row\<lparr>row_status := st, row_stages := JSON_stringify_stages ss\<rparr>))))
   \<and> (view_ok p \<and> list_all is_Advance as \<longrightarrow>
        last (view_stages (run oid uid as p)) = last (view_stages p) \<and>
        length (view_stages (run oid uid as p)) = length (view_stages p))"
proof (intro conjI impI)
  from advanceStage_cases [of t oid "Some ord" user now ok]
  consider (same) "fst (advanceStage t oid (Some ord) user now ok) = t"
    | (written) u i where "i + 1 < length (stages ord)"
        "fst (advanceStage t oid (Some ord) user now ok) =
           update_order t oid u (name (stages ord ! (i + 1)))
             (JSON_stringify_stages (mark_done now i (stages ord)))"
    unfolding mark_done_def by fastforce
  then show "\<exists>ss. length ss = length (stages ord) \<and> last ss = last (stages ord) \<and>
        (fst (advanceStage t oid (Some ord) user now ok) = t \<or>
         (\<exists>row st. t oid = Some row \<and>
            fst (advanceStage t oid (Some ord) user now ok) =
              t(oid \<mapsto> row\<lparr>row_status := st, row_stages := JSON_stringify_stages ss\<rparr>)))"
  proof cases
    case same
    then show ?thesis by blast
  next
    case written
    from written(1) have ne: "stages ord \<noteq> []" and il: "i \<noteq> length (stages ord) - 1" by auto
    have l: "length (mark_done now i (stages ord)) = length (stages ord)"
      by (simp add: mark_done_def)
    have k: "last (mark_done now i (stages ord)) = last (stages ord)"
      using ne il by (simp add: mark_done_def last_list_update)
    from update_order_cases [of t oid u "name (stages ord ! (i + 1))"
        "JSON_stringify_stages (mark_done now i (stages ord))"] written(2) l k
    show ?thesis by metis
  qed
next
  assume "view_ok p \<and> list_all is_Advance as"
  then show "last (view_stages (run oid uid as p)) = last (view_stages p)"
    and "length (view_stages (run oid uid as p)) = length (view_stages p)"
    using run_advance_last [of p as oid uid] by simp_all
qed

lemma sample_page2_ok: "view_ok (sample_page ''o2'')"
  by (simp add: view_ok_def view_stages_def sample_view2 sample_order2_def sample_stages_wf)

lemma sample_page1_ok: "view_ok (sample_page ''o1'')"
  by (simp add: view_ok_def view_stages_def sample_view1 sample_order1_def defaultStages_wf)

theorem advanceStage_keeps_last_stage_witness:
  "last (view_stages (run ''o2'' ''u1''
      [Advance ''2024-01-02T09:30:00.000Z'' True, Advance ''2024-01-03T10:00:00.000Z'' True]
      (sample_page ''o2''))) =
     \<lparr>name = JStr ''Delivered'', timestamp = JStr '''', completed = False\<rparr>"
proof -
  have "list_all is_Advance [Advance ''2024-01-02T09:30:00.000Z'' True, Advance ''2024-01-03T10:00:00.000Z'' True]"
    by simp
  with advanceStage_keeps_last_stage sample_page2_ok
  have "last (view_stages (run ''o2'' ''u1''
      [Advance ''2024-01-02T09:30:00.000Z'' True, Advance ''2024-01-03T10:00:00.000Z'' True]
      (sample_page ''o2''))) = last (view_stages (sample_page ''o2''))"
    by blast
  then show ?thesis
    by (simp add: view_stages_def sample_view2 sample_order2_def sample_stages_def)
qed

section \<open>Results on receipt confirmation and ownership\<close>

text \<open>
  Claim C3, as stated, fails. On the sample order \<open>o2\<close> the "Confirm Received" button is
  shown and the stage "Processing" is still incomplete, yet \<^verbatim>\<open>confirmReceipt\<close> writes: the
  last stage is stored as completed and the status becomes "Confirmed Received". On the
  sample order \<open>o1\<close>, whose last stage is not named "Delivered", the function writes as well:
  only the button checks the name.
\<close>

theorem confirmReceipt_ignores_earlier_stages:
  "confirmButtonShown sample_order2 = Inr True
   \<and> completed (stages sample_order2 ! 1) = False
   \<and> confirmReceipt sample_table ''o2'' (Some sample_order2) (Some ''u1'') ''2024-01-02T09:30:00.000Z'' True =
       (sample_table(''o2'' \<mapsto> sample_row2
          \<lparr>row_status := JStr ''Confirmed Received'',
           row_stages := JSON_stringify_stages
             (sample_stages
                [2 := \<lparr>name = JStr ''Delivered'', timestamp = JStr ''2024-01-02T09:30:00.000Z'',
                        completed = True\<rparr>])\<rparr>),
        Written)
   \<and> name (last (stages sample_order1)) = JStr ''Confirmed Received''
   \<and> snd (confirmReceipt sample_table ''o1'' (Some sample_order1) (Some ''u1'') ''2024-01-02T09:30:00.000Z'' True) = Written"
  by (simp add: confirmButtonShown_def confirmReceipt_def sample_order2_def sample_order1_def
      sample_stages_def defaultStages_def sample_table_def update_order_def sample_row2_def
      sample_row1_def Let_def)

text \<open>
  Claim C3, amended. \<^verbatim>\<open>confirmReceipt\<close> sends its update exactly when an order and a user
  are present and the last stage exists and is not yet completed; the button that calls it
  is rendered exactly when, in addition, the last stage is named "Delivered". Neither looks
  at the earlier stages. Whenever the call does not end in an accepted write (it returned,
  it threw, or the storage refused) the table is unchanged; an accepted write by the owner
  stores the last stage as completed at the current time and the status "Confirmed Received".
\<close>

theorem confirmReceipt_guard:
  "(snd (confirmReceipt t oid (Some ord) (Some uid) now ok) \<in> {Written, WriteFailed}
      \<longleftrightarrow> stages ord \<noteq> [] \<and> \<not> completed (last (stages ord)))
   \<and> (confirmButtonShown ord = Inr True
      \<longleftrightarrow> stages ord \<noteq> [] \<and> name (last (stages ord)) = JStr ''Delivered'' \<and> \<not> completed (last (stages ord)))
   \<and> (snd (confirmReceipt t oid ov user now ok) \<noteq> Written
      \<longrightarrow> fst (confirmReceipt t oid ov user now ok) = t)
   \<and> (stages ord \<noteq> [] \<and> \<not> completed (last (stages ord)) \<and> t oid = Some row \<and> row_user_id row = uid
      \<longrightarrow> confirmReceipt t oid (Some ord) (Some uid) now True =
            (t(oid \<mapsto> row\<lparr>row_status := JStr ''Confirmed Received'',
                           row_stages := JSON_stringify_stages
                             ((stages ord)[length (stages ord) - 1 :=
                                (last (stages ord))\<lparr>completed := True, timestamp := JStr now\<rparr>])\<rparr>),
             Written))"
proof (intro conjI impI)
  show "snd (confirmReceipt t oid (Some ord) (Some uid) now ok) \<in> {Written, WriteFailed}
      \<longleftrightarrow> stages ord \<noteq> [] \<and> \<not> completed (last (stages ord))"
    by (simp add: confirmReceipt_def Let_def)
  show "confirmButtonShown ord = Inr True
      \<longleftrightarrow> stages ord \<noteq> [] \<and> name (last (stages ord)) = JStr ''Delivered'' \<and> \<not> completed (last (stages ord))"
    by (simp add: confirmButtonShown_def)
  show "fst (confirmReceipt t oid ov user now ok) = t"
    if "snd (confirmReceipt t oid ov user now ok) \<noteq> Written"
    using that confirmReceipt_cases [of t oid ov user now ok] by auto
  show "confirmReceipt t oid (Some ord) (Some uid) now True =
            (t(oid \<mapsto> row\<lparr>row_status := JStr ''Confirmed Received'',
                           row_stages := JSON_stringify_stages
                             ((stages ord)[length (stages ord) - 1 :=
                                (last (stages ord))\<lparr>completed := True, timestamp := JStr now\<rparr>])\<rparr>),
             Written)"
    if "stages ord \<noteq> [] \<and> \<not> completed (last (stages ord)) \<and> t oid = Some row \<and> row_user_id row = uid"
    using that by (auto simp: confirmReceipt_def Let_def update_order_def last_conv_nth)
qed

theorem confirmReceipt_guard_witness:
  "confirmReceipt sample_table ''o2''
      (Some (sample_order2\<lparr>stages := mark_done ''2024-01-02T09:30:00.000Z'' 1 sample_stages\<rparr>))
      (Some ''u1'') ''2024-01-03T10:00:00.000Z'' True =
     (sample_table(''o2'' \<mapsto> sample_row2
        \<lparr>row_status := JStr ''Confirmed Received'',
         row_stages := JSON_stringify_stages
           ((mark_done ''2024-01-02T09:30:00.000Z'' 1 sample_stages)
              [2 := \<lparr>name = JStr ''Delivered'', timestamp = JStr ''2024-01-03T10:00:00.000Z'',
                      completed = True\<rparr>])\<rparr>),
      Written)
   \<and> fst (confirmReceipt sample_table ''o2''
        (Some (sample_order2\<lparr>stages := mark_done ''2024-01-02T09:30:00.000Z'' 1 sample_stages\<rparr>))
        (Some ''u1'') ''2024-01-03T10:00:00.000Z'' False) = sample_table"
proof -
  let ?ord = "sample_order2\<lparr>stages := mark_done ''2024-01-02T09:30:00.000Z'' 1 sample_stages\<rparr>"
  have h: "stages ?ord \<noteq> [] \<and> \<not> completed (last (stages ?ord)) \<and>
           sample_table ''o2'' = Some sample_row2 \<and> row_user_id sample_row2 = ''u1''"
    by (simp add: mark_done_def sample_stages_def sample_table_def sample_row2_def)
  have f: "snd (confirmReceipt sample_table ''o2'' (Some ?ord) (Some ''u1'') ''2024-01-03T10:00:00.000Z'' False) \<noteq> Written"
    by (simp add: confirmReceipt_def Let_def mark_done_def sample_stages_def)
  from confirmReceipt_guard [where ord = ?ord and t = sample_table and oid = "''o2''" and row = sample_row2
      and uid = "''u1''" and now = "''2024-01-03T10:00:00.000Z''" and ov = "Some ?ord"
      and user = "Some ''u1''" and ok = False] h f
  have "confirmReceipt sample_table ''o2'' (Some ?ord) (Some ''u1'') ''2024-01-03T10:00:00.000Z'' True =
            (sample_table(''o2'' \<mapsto> sample_row2\<lparr>row_status := JStr ''Confirmed Received'',
                           row_stages := JSON_stringify_stages
                             ((stages ?ord)[length (stages ?ord) - 1 :=
                                (last (stages ?ord))\<lparr>completed := True, timestamp := JStr ''2024-01-03T10:00:00.000Z''\<rparr>])\<rparr>),
             Written)"
    and "fst (confirmReceipt sample_table ''o2'' (Some ?ord) (Some ''u1'') ''2024-01-03T10:00:00.000Z'' False) = sample_table"
    by blast+
  then show ?thesis
    by (simp add: mark_done_def sample_stages_def)
qed

text \<open>
  Claim C7, as stated, fails. When the page still holds an order and the signed-in user is
  not its owner, both transitions send their update and end as an accepted write; neither
  is rejected with an access error, since the functions make no ownership check of their own.
\<close>

theorem non_owner_request_is_sent:
  "snd (advanceStage sample_table ''o1'' (Some sample_order1) (Some ''u2'') ''2024-01-02T09:30:00.000Z'' True) = Written
   \<and> snd (confirmReceipt sample_table ''o1'' (Some sample_order1) (Some ''u2'') ''2024-01-02T09:30:00.000Z'' True) = Written
   \<and> row_user_id sample_row1 = ''u1''"
  by (simp add: advanceStage_def confirmReceipt_def sample_order1_def defaultStages_def Let_def
      sample_row1_def)

text \<open>
  Claim C7, amended. For a caller who is not the owner of the order, the order query is
  rejected with "Access denied", so the page holds no order, both transitions return without
  sending a request, and no sequence of clicks changes the table or the page. Whatever order
  the page holds, a transition by a non-owner leaves the table unchanged, because the update
  is filtered by the caller's user id.
\<close>

theorem non_owner_cannot_change_order:
  assumes "t oid = Some row" and "row_user_id row \<noteq> uid" and "oid \<noteq> []"
  shows "queryFn t (Some oid) True (Some uid) = Inl AccessDenied
       \<and> refetch t oid uid None = None
       \<and> advanceStage t oid None (Some uid) now ok = (t, Returned)
       \<and> confirmReceipt t oid None (Some uid) now ok = (t, Returned)
       \<and> run oid uid as \<lparr>tbl = t, view = refetch t oid uid None\<rparr> = \<lparr>tbl = t, view = None\<rparr>
       \<and> fst (advanceStage t oid ov (Some uid) now ok) = t
       \<and> fst (confirmReceipt t oid ov (Some uid) now ok) = t"
proof (intro conjI)
  show q: "queryFn t (Some oid) True (Some uid) = Inl AccessDenied"
    using assms by (simp add: queryFn_denied)
  then show r: "refetch t oid uid None = None"
    by (simp add: refetch_def)
  show a: "advanceStage t oid None (Some uid) now ok = (t, Returned)"
    by (simp add: advanceStage_def)
  show c: "confirmReceipt t oid None (Some uid) now ok = (t, Returned)"
    by (simp add: confirmReceipt_def)
  have s: "step oid uid a \<lparr>tbl = t, view = None\<rparr> = \<lparr>tbl = t, view = None\<rparr>" for a
    by (cases a) (simp_all add: step_def advanceStage_def confirmReceipt_def)
  have "run oid uid as \<lparr>tbl = t, view = None\<rparr> = \<lparr>tbl = t, view = None\<rparr>"
    by (induction as) (simp_all add: s)
  with r show "run oid uid as \<lparr>tbl = t, view = refetch t oid uid None\<rparr> = \<lparr>tbl = t, view = None\<rparr>"
    by simp
  have u: "update_order t oid uid st stg = t" for st stg
    using assms by (simp add: update_order_def)
  show "fst (advanceStage t oid ov (Some uid) now ok) = t"
    using advanceStage_cases [of t oid ov "Some uid" now ok] by (auto simp: u)
  show "fst (confirmReceipt t oid ov (Some uid) now ok) = t"
    using confirmReceipt_cases [of t oid ov "Some uid" now ok] by (auto simp: u)
qed

theorem non_owner_cannot_change_order_witness:
  "queryFn sample_table (Some ''o1'') True (Some ''u2'') = Inl AccessDenied
   \<and> run ''o1'' ''u2'' [Advance ''2024-01-02T09:30:00.000Z'' True, ConfirmReceipt ''2024-01-03T10:00:00.000Z'' True]
        \<lparr>tbl = sample_table, view = refetch sample_table ''o1'' ''u2'' None\<rparr> =
       \<lparr>tbl = sample_table, view = None\<rparr>
   \<and> fst (advanceStage sample_table ''o1'' (Some sample_order1) (Some ''u2'') ''2024-01-02T09:30:00.000Z'' True) = sample_table
   \<and> fst (confirmReceipt sample_table ''o1'' (Some sample_order1) (Some ''u2'') ''2024-01-02T09:30:00.000Z'' True) = sample_table"
proof -
  have "sample_table ''o1'' = Some sample_row1" and "row_user_id sample_row1 \<noteq> ''u2''" and "''o1'' \<noteq> []"
    by (simp_all add: sample_table_def sample_row1_def)
  from non_owner_cannot_change_order [where t = sample_table and oid = "''o1''" and row = sample_row1
      and uid = "''u2''", OF this]
  show ?thesis
    by blast
qed

section \<open>Results on monotonic completion\<close>


























end
